theory Spec2Isabelle
  imports Main
begin

section \<open>The update runner of maintainers/scripts/update.py\<close>

text \<open>
  The script runs one update procedure per package on a pool of worker threads, and
  the coordinating thread merges each finished result: it commits the reported changes
  in the worker's git worktree and cherry-picks them onto the checked-out branch.

  The functions of the script are embedded as state-passing functions over a
  \<open>world\<close>: the sequence of effects performed so far and the set of held locks.
  What the script cannot decide itself is a field of the environment \<open>env\<close>: the
  exit status and output of an external command, the decoders of the standard library,
  the command line, the package file and the line typed at the prompt. An exception is
  the \<open>Inl\<close> of a sum.

  The threads of a run are interleaved by a schedule, a list of steps; each step is one
  thread running up to the next point where another thread can act (\<open>step\<close> below).
  The executor and \<open>as_completed\<close> are those of \<open>concurrent.futures\<close>: a worker
  takes queued work in the order of submission, the coordinator is handed completed
  futures in some order, and leaving the \<open>with\<close> block waits until the queue is empty
  and every worker has finished.

  Not modelled: failures of the operating system itself (opening a file, creating a
  directory, a process or a thread) and interrupts from the keyboard.
\<close>

subsection \<open>Exceptions and data\<close>

datatype exn =
    CalledProcessError int "string list" "string option"
  | SystemExit "int option"
  | KeyboardInterrupt
  | JSONDecodeError
  | UnicodeDecodeError
  | AttributeError
  | UnboundLocalError string
  | KeyError string
  | IndexError
  | OSError
  | EOFError
  | ValueError
  | RuntimeError

text \<open>A package is a dictionary; the key \<open>thread\<close> is absent until a worker sets it.\<close>

record package =
  name :: string
  pname :: string
  updateScript :: "string list"
  supportedFeatures :: "string list"
  thread :: "string option"

text \<open>One element of the JSON array an update script prints.\<close>

record change =
  attrPath :: string
  oldVersion :: string
  newVersion :: string
  files :: "string list"

text \<open>The \<open>CompletedProcess\<close> of an update script, whose output is captured.\<close>

record completed_process =
  returncode :: int
  stdout :: string

subsection \<open>Effects\<close>

datatype event =
    Eprint string
  | Prompt string
  | Acquire string
  | Release string
  | Mkdtemp string
  | Rmtree string
  | Git "string list" "string option" int
  | Spawn "string list" "string option"
  | Exit "string list" "string option" int
  | WriteFile string string

record world =
  trace :: "event list"
  held :: "string set"

record env =
  proc :: "event list \<Rightarrow> string list \<Rightarrow> string option \<Rightarrow> int \<times> string"
  json_loads :: "string \<Rightarrow> change list option"
  decode_utf8 :: "string \<Rightarrow> string option"
  sys_argv :: "string list"
  load_packages :: "string \<Rightarrow> package list option"
  stdin_line :: "string option"
  mkdtemp :: "nat \<Rightarrow> string"

definition emit :: "event \<Rightarrow> world \<Rightarrow> world" where
  "emit ev w = w\<lparr>trace := trace w @ [ev]\<rparr>"

definition eprint :: "string \<Rightarrow> world \<Rightarrow> world" where
  "eprint s w = emit (Eprint s) w"

definition acquire :: "string \<Rightarrow> world \<Rightarrow> world" where
  "acquire l w = emit (Acquire l) (w\<lparr>held := insert l (held w)\<rparr>)"

definition release :: "string \<Rightarrow> world \<Rightarrow> world" where
  "release l w = emit (Release l) (w\<lparr>held := held w - {l}\<rparr>)"

text \<open>
  \<open>subprocess.run(['git', ...], check=True, cwd=cwd)\<close>: the output is not captured,
  so the \<open>CalledProcessError\<close> of a failing command carries no \<open>stdout\<close>.
\<close>

definition git :: "env \<Rightarrow> string list \<Rightarrow> string option \<Rightarrow> world \<Rightarrow> (exn + unit) \<times> world" where
  "git e args cwd w =
     (let rc = fst (proc e (trace w) (''git'' # args) cwd);
          w' = emit (Git args cwd rc) w
      in if rc = 0 then (Inr (), w')
         else (Inl (CalledProcessError rc (''git'' # args) None), w'))"

subsection \<open>commit_changes\<close>

text \<open>The arrow U+2192 of the commit message, as its three bytes in UTF-8.\<close>

definition arrow :: string where
  "arrow = [CHR 0xE2, CHR 0x86, CHR 0x92]"

definition commit_message :: "change \<Rightarrow> string" where
  "commit_message c = attrPath c @ '': '' @ oldVersion c @ '' '' @ arrow @ '' '' @ newVersion c"

text \<open>The body of the loop over the changes: add, commit, cherry-pick, for each change.\<close>

fun commit_each :: "env \<Rightarrow> string \<Rightarrow> string \<Rightarrow> change list \<Rightarrow> world \<Rightarrow> (exn + unit) \<times> world" where
  "commit_each e worktree branch [] w = (Inr (), w)"
| "commit_each e worktree branch (c # cs) w =
     (case git e (''add'' # files c) (Some worktree) w of
        (Inl x, w1) \<Rightarrow> (Inl x, w1)
      | (Inr _, w1) \<Rightarrow>
          (case git e [''commit'', ''-m'', commit_message c] (Some worktree) w1 of
             (Inl x, w2) \<Rightarrow> (Inl x, w2)
           | (Inr _, w2) \<Rightarrow>
               (case git e [''cherry-pick'', branch] None w2 of
                  (Inl x, w3) \<Rightarrow> (Inl x, w3)
                | (Inr _, w3) \<Rightarrow> commit_each e worktree branch cs w3)))"

definition commit_changes ::
  "env \<Rightarrow> string \<Rightarrow> string \<Rightarrow> completed_process \<Rightarrow> world \<Rightarrow> (exn + unit) \<times> world" where
  "commit_changes e worktree branch execution w =
     (case json_loads e (stdout execution) of
        None \<Rightarrow> (Inl JSONDecodeError, w)
      | Some changes \<Rightarrow> commit_each e worktree branch changes w)"

subsection \<open>merge_changes\<close>

type_synonym temp_dirs = "(string \<times> string \<times> string) list"

text \<open>
  The table \<open>temp_dirs\<close> maps a thread name to its worktree and branch; the lock of
  an entry is identified by the thread name, and \<open>held\<close> says whether it is taken.

  The \<open>try\<close> block. The second component of the result is the local variable
  \<open>lock\<close>: \<open>None\<close> while it is unbound, the owning thread name once the line
  \<open>worktree, branch, lock = temp_dirs[thread_name]\<close> has run.
\<close>

definition done_line :: "package \<Rightarrow> string" where
  "done_line package = '' - '' @ name package @ '': DONE.''"

definition error_line :: "package \<Rightarrow> string" where
  "error_line package = '' - '' @ name package @ '': ERROR''"

definition banner :: "package \<Rightarrow> string" where
  "banner package = ''--- SHOWING ERROR LOG FOR '' @ name package @ '' ----------------------''"

definition merge_try ::
  "env \<Rightarrow> package \<Rightarrow> (exn + completed_process) \<Rightarrow> bool \<Rightarrow> temp_dirs \<Rightarrow> world
     \<Rightarrow> ((exn + unit) \<times> string option) \<times> world" where
  "merge_try e package future commit temp_dirs w =
     (case future of
        Inl x \<Rightarrow> ((Inl x, None), w)
      | Inr execution \<Rightarrow>
          if commit \<and> ''commit'' \<in> set (supportedFeatures package) then
            (case thread package of
               None \<Rightarrow> ((Inl (KeyError ''thread''), None), w)
             | Some thread_name \<Rightarrow>
                 (case map_of temp_dirs thread_name of
                    None \<Rightarrow> ((Inl (KeyError thread_name), None), w)
                  | Some (worktree, branch) \<Rightarrow>
                      (case commit_changes e worktree branch execution w of
                         (Inl x, w1) \<Rightarrow> ((Inl x, Some thread_name), w1)
                       | (Inr _, w1) \<Rightarrow>
                           ((Inr (), Some thread_name), eprint (done_line package) w1))))
          else ((Inr (), None), eprint (done_line package) w))"

text \<open>
  The handler of \<open>CalledProcessError\<close>; \<open>out\<close> is \<open>e.stdout\<close>, which is
  \<open>None\<close> when the failing command was a git command.
\<close>

definition merge_except ::
  "env \<Rightarrow> package \<Rightarrow> bool \<Rightarrow> string option \<Rightarrow> world \<Rightarrow> (exn + unit) \<times> world" where
  "merge_except e package keep_going out w =
     (let w4 = eprint [] (eprint (banner package) (eprint [] (eprint (error_line package) w)))
      in case out of
           None \<Rightarrow> (Inl AttributeError, w4)
         | Some bytes \<Rightarrow>
             (case decode_utf8 e bytes of
                None \<Rightarrow> (Inl UnicodeDecodeError, w4)
              | Some text \<Rightarrow>
                  (let w5 = eprint text w4;
                       w6 = emit (WriteFile (pname package @ ''.log'') bytes) w5;
                       w8 = eprint (banner package) (eprint [] w6)
                   in if \<not> keep_going then (Inl (SystemExit (Some 1)), w8)
                      else (Inr (), w8))))"

fun merge_handle ::
  "env \<Rightarrow> package \<Rightarrow> bool \<Rightarrow> (exn + unit) \<Rightarrow> world \<Rightarrow> (exn + unit) \<times> world" where
  "merge_handle e package keep_going (Inl (CalledProcessError rc cmd out)) w =
     merge_except e package keep_going out w"
| "merge_handle e package keep_going r w = (r, w)"

text \<open>
  The \<open>finally\<close> block runs last on every path. Reading the unbound local
  \<open>lock\<close> raises \<open>UnboundLocalError\<close>, and an exception raised here replaces the
  one in flight.
\<close>

definition merge_finally ::
  "package \<Rightarrow> bool \<Rightarrow> string option \<Rightarrow> (exn + unit) \<Rightarrow> world \<Rightarrow> (exn + unit) \<times> world" where
  "merge_finally package commit lock r w =
     (if commit \<and> ''commit'' \<in> set (supportedFeatures package) then
        (case lock of
           None \<Rightarrow> (Inl (UnboundLocalError ''lock''), w)
         | Some l \<Rightarrow> if l \<in> held w then (r, release l w) else (Inl RuntimeError, w))
      else (r, w))"

definition merge_changes ::
  "env \<Rightarrow> package \<Rightarrow> (exn + completed_process) \<Rightarrow> bool \<Rightarrow> bool \<Rightarrow> temp_dirs \<Rightarrow> world
     \<Rightarrow> (exn + unit) \<times> world" where
  "merge_changes e package future commit keep_going temp_dirs w =
     (case merge_try e package future commit temp_dirs w of
        ((r, lock), w1) \<Rightarrow>
          (case merge_handle e package keep_going r w1 of
             (r2, w2) \<Rightarrow> merge_finally package commit lock r2 w2))"

subsection \<open>run_update_script\<close>

text \<open>
  A worker runs \<open>run_update_script\<close> in two steps, so that other threads can act while
  the update process runs: up to the start of the process, and its end.
  \<open>lock.acquire()\<close> blocks while the lock is held; \<open>run_update_script_blocked\<close> says
  when the first step cannot be taken.
\<close>

definition updating_line :: "package \<Rightarrow> string" where
  "updating_line package = '' - '' @ name package @ '': UPDATING ...''"

definition run_update_script_blocked :: "package \<Rightarrow> bool \<Rightarrow> temp_dirs \<Rightarrow> string \<Rightarrow> world \<Rightarrow> bool" where
  "run_update_script_blocked package commit temp_dirs thread_name w =
     (commit \<and> ''commit'' \<in> set (supportedFeatures package)
      \<and> map_of temp_dirs thread_name \<noteq> None \<and> thread_name \<in> held w)"

definition run_update_script_start ::
  "package \<Rightarrow> bool \<Rightarrow> temp_dirs \<Rightarrow> string \<Rightarrow> world \<Rightarrow> (exn + package \<times> string option) \<times> world" where
  "run_update_script_start package commit temp_dirs thread_name w =
     (if commit \<and> ''commit'' \<in> set (supportedFeatures package) then
        (case map_of temp_dirs thread_name of
           None \<Rightarrow> (Inl (KeyError thread_name), w)
         | Some (worktree, branch) \<Rightarrow>
             (let package' = package\<lparr>thread := Some thread_name\<rparr>
              in (Inr (package', Some worktree),
                  emit (Spawn (updateScript package') (Some worktree))
                    (eprint (updating_line package') (acquire thread_name w)))))
      else (Inr (package, None),
            emit (Spawn (updateScript package) None) (eprint (updating_line package) w)))"

definition run_update_script_finish ::
  "env \<Rightarrow> package \<Rightarrow> string option \<Rightarrow> world \<Rightarrow> (exn + completed_process) \<times> world" where
  "run_update_script_finish e package cwd w =
     (let res = proc e (trace w) (updateScript package) cwd;
          w' = emit (Exit (updateScript package) cwd (fst res)) w
      in if fst res = 0 then (Inr \<lparr>returncode = 0, stdout = snd res\<rparr>, w')
         else (Inl (CalledProcessError (fst res) (updateScript package) (Some (snd res))), w'))"

subsection \<open>make_worktree\<close>

definition basename :: "string \<Rightarrow> string" where
  "basename p = rev (takeWhile (\<lambda>c. c \<noteq> CHR ''/'') (rev p))"

text \<open>
  A context of \<open>make_worktree\<close> is the temporary directory, the worktree directory in
  it and the branch. Entering runs the generator up to its \<open>yield\<close>; the
  \<open>TemporaryDirectory\<close> around it is removed when the generator is left.
\<close>

type_synonym worktree_context = "string \<times> string \<times> string"

definition make_worktree_enter :: "env \<Rightarrow> nat \<Rightarrow> world \<Rightarrow> (exn + worktree_context) \<times> world" where
  "make_worktree_enter e k w =
     (let wt = mkdtemp e k;
          branch_name = ''update-'' @ basename wt;
          target_directory = wt @ ''/nixpkgs''
      in case git e [''worktree'', ''add'', ''-b'', branch_name, target_directory] None
                (emit (Mkdtemp wt) w) of
           (Inl x, w1) \<Rightarrow> (Inl x, emit (Rmtree wt) w1)
         | (Inr _, w1) \<Rightarrow> (Inr (wt, target_directory, branch_name), w1))"

text \<open>
  Leaving the context. When the block ended with an exception, it is thrown into the
  generator at the \<open>yield\<close>, which no \<open>try\<close> encloses: the two git commands after
  it are skipped and only the temporary directory is removed.
\<close>

fun make_worktree_exit ::
  "env \<Rightarrow> worktree_context \<Rightarrow> (exn + unit) \<Rightarrow> world \<Rightarrow> (exn + unit) \<times> world" where
  "make_worktree_exit e (wt, target_directory, branch_name) (Inl x) w =
     (Inl x, emit (Rmtree wt) w)"
| "make_worktree_exit e (wt, target_directory, branch_name) (Inr u) w =
     (case git e [''worktree'', ''remove'', target_directory] None w of
        (Inl x, w1) \<Rightarrow> (Inl x, emit (Rmtree wt) w1)
      | (Inr _, w1) \<Rightarrow>
          (case git e [''branch'', ''-D'', branch_name] None w1 of
             (Inl x, w2) \<Rightarrow> (Inl x, emit (Rmtree wt) w2)
           | (Inr _, w2) \<Rightarrow> (Inr (), emit (Rmtree wt) w2)))"

text \<open>
  \<open>ExitStack.__exit__\<close>: the contexts are left last entered first; an exception
  raised by one of them is passed on to the remaining ones.
\<close>

fun exit_stack ::
  "env \<Rightarrow> worktree_context list \<Rightarrow> (exn + unit) \<Rightarrow> world \<Rightarrow> (exn + unit) \<times> world" where
  "exit_stack e [] r w = (r, w)"
| "exit_stack e (c # cs) r w =
     (case make_worktree_exit e c r w of (r', w') \<Rightarrow> exit_stack e cs r' w')"

subsection \<open>The run: main and the worker pool\<close>

definition thread_name_prefix :: string where
  "thread_name_prefix = ''UpdateScriptThread''"

text \<open>\<open>str(i)\<close> for a natural number: its decimal digits.\<close>

fun str :: "nat \<Rightarrow> string" where
  "str n = (if n < 10 then [''0123456789'' ! n] else str (n div 10) @ [''0123456789'' ! (n mod 10)])"

declare str.simps [simp del]

text \<open>The name the executor gives its \<open>i\<close>-th thread, and the \<open>i\<close>-th key of \<open>temp_dirs\<close>.\<close>

definition thread_name :: "nat \<Rightarrow> string" where
  "thread_name i = thread_name_prefix @ ''_'' @ str i"

text \<open>
  A worker is idle, has taken a package from the work queue, or waits for the update
  process it started. The coordinating thread is inside the \<open>with\<close> block (submitting,
  then merging), is leaving it with a result, or the process has ended.
\<close>

datatype wstate = Idle | Holding package | Running package "string option"

datatype final = Exited int | Crashed exn

datatype coord = Looping | Leaving "exn + unit" | Done final

record config =
  world :: world
  temp_dirs :: temp_dirs
  stack :: "worktree_context list"
  unsubmitted :: "package list"
  queue :: "package list"
  workers :: "nat \<Rightarrow> wstate"
  finished :: "(package \<times> (exn + completed_process)) list"
  coord :: coord

text \<open>
  The dictionary comprehension that fills \<open>temp_dirs\<close>: one \<open>make_worktree\<close> context
  per worker, pushed on the \<open>ExitStack\<close> (last entered first).
\<close>

fun enter_worktrees ::
  "env \<Rightarrow> nat list \<Rightarrow> worktree_context list \<Rightarrow> temp_dirs \<Rightarrow> world
     \<Rightarrow> (exn + temp_dirs) \<times> worktree_context list \<times> world" where
  "enter_worktrees e [] st td w = (Inr td, st, w)"
| "enter_worktrees e (i # rest) st td w =
     (case make_worktree_enter e i w of
        (Inl x, w1) \<Rightarrow> (Inl x, st, w1)
      | (Inr (wt, target_directory, branch_name), w1) \<Rightarrow>
          enter_worktrees e rest ((wt, target_directory, branch_name) # st)
            (td @ [(thread_name i, target_directory, branch_name)]) w1)"

text \<open>
  The last lines of the script: \<open>SystemExit\<close> and \<open>KeyboardInterrupt\<close> end the
  process with a code, any other exception ends it with a traceback.
\<close>

fun toplevel :: "exn + unit \<Rightarrow> final" where
  "toplevel (Inr u) = Exited 0"
| "toplevel (Inl (SystemExit None)) = Exited 0"
| "toplevel (Inl (SystemExit (Some code))) = Exited code"
| "toplevel (Inl KeyboardInterrupt) = Exited 130"
| "toplevel (Inl x) = Crashed x"

definition listing :: "package list \<Rightarrow> world \<Rightarrow> world" where
  "listing packages w =
     eprint [] (fold (\<lambda>package. eprint ('' - '' @ name package)) packages
       (eprint ''Going to be running update for following packages:'' (eprint [] w)))"

definition initial :: "package list \<Rightarrow> world \<Rightarrow> coord \<Rightarrow> config" where
  "initial packages w c =
     \<lparr>world = w, temp_dirs = [], stack = [], unsubmitted = packages, queue = [],
      workers = (\<lambda>i. Idle), finished = [], coord = c\<rparr>"

text \<open>
  \<open>main\<close> up to the first submission. The parameter \<open>packages\<close> is never read: the
  list comes from the file named by \<open>sys.argv[1]\<close>.
\<close>

definition main_start :: "env \<Rightarrow> int \<Rightarrow> bool \<Rightarrow> bool \<Rightarrow> 'a \<Rightarrow> config" where
  "main_start e max_workers keep_going commit packages =
     (let w0 = \<lparr>trace = [], held = {}\<rparr> in
      if length (sys_argv e) \<le> 1 then initial [] w0 (Done (toplevel (Inl IndexError)))
      else case load_packages e (sys_argv e ! 1) of
        None \<Rightarrow> initial [] w0 (Done (toplevel (Inl OSError)))
      | Some loaded \<Rightarrow>
          (let w1 = emit (Prompt ''Press Enter key to continue...'') (listing loaded w0) in
           case stdin_line e of
             None \<Rightarrow> initial loaded w1 (Done (toplevel (Inl EOFError)))
           | Some confirm \<Rightarrow>
               if confirm = [] then
                 (let w2 = eprint ''Running update for:'' (eprint [] w1) in
                  if max_workers \<le> 0 then initial loaded w2 (Leaving (Inl ValueError))
                  else if commit then
                    (case enter_worktrees e [0..<nat max_workers] [] [] w2 of
                       (Inl x, st, w3) \<Rightarrow> (initial loaded w3 (Leaving (Inl x)))\<lparr>stack := st\<rparr>
                     | (Inr td, st, w3) \<Rightarrow>
                         (initial loaded w3 Looping)\<lparr>temp_dirs := td, stack := st\<rparr>)
                  else initial loaded w2 Looping)
               else initial loaded (eprint ''Aborting!'' w1)
                      (Done (toplevel (Inl (SystemExit (Some 130)))))))"

text \<open>After the \<open>with\<close> block: the last two messages and \<open>sys.exit()\<close>.\<close>

fun main_end :: "(exn + unit) \<Rightarrow> world \<Rightarrow> (exn + unit) \<times> world" where
  "main_end (Inl x) w = (Inl x, w)"
| "main_end (Inr u) w = (Inl (SystemExit None), eprint ''Packages updated!'' (eprint [] w))"

text \<open>
  The handler of the last lines cancels every future; only a future still waiting in
  the queue can be cancelled.
\<close>

fun cancels :: "exn + unit \<Rightarrow> bool" where
  "cancels (Inl (SystemExit code)) = True"
| "cancels (Inl KeyboardInterrupt) = True"
| "cancels r = False"

text \<open>
  Leaving the \<open>with\<close> block with result \<open>r\<close>, once the executor has shut down: the
  worktree contexts are left, then \<open>main\<close> ends and the last lines of the script run.
\<close>

definition leave :: "env \<Rightarrow> (exn + unit) \<Rightarrow> config \<Rightarrow> config" where
  "leave e r c =
     (case exit_stack e (stack c) r (world c) of
        (r1, w1) \<Rightarrow>
          (case main_end r1 w1 of
             (r2, w2) \<Rightarrow>
               c\<lparr>world := w2, stack := [],
                 queue := (if cancels r2 then [] else queue c),
                 coord := Done (toplevel r2)\<rparr>))"

definition all_idle :: "nat \<Rightarrow> (nat \<Rightarrow> wstate) \<Rightarrow> bool" where
  "all_idle n ws = list_all (\<lambda>i. ws i = Idle) [0..<n]"

text \<open>
  The executor's \<open>__exit__\<close> is \<open>shutdown(wait=True)\<close>: it returns when the work queue
  is empty and every worker has finished.
\<close>

definition shut_down :: "nat \<Rightarrow> config \<Rightarrow> bool" where
  "shut_down n c = (queue c = [] \<and> all_idle n (workers c))"

text \<open>
  One step of one thread. A schedule is a list of such steps; a step that its thread
  cannot take gives \<open>None\<close>.
  \<^item> \<open>Submit\<close>: the coordinator submits the next package to the executor.
  \<^item> \<open>Dequeue i\<close>: the idle worker \<open>i\<close> takes the oldest package of the work queue.
  \<^item> \<open>Begin i\<close>: worker \<open>i\<close> runs \<open>run_update_script\<close> up to the start of the process.
  \<^item> \<open>Finish i\<close>: the process of worker \<open>i\<close> ends and its future completes.
  \<^item> \<open>Merge k\<close>: \<open>as_completed\<close> yields the \<open>k\<close>-th completed future that was not
    yielded before, and the coordinator calls \<open>merge_changes\<close> on it.
  \<^item> \<open>Leave\<close>: the coordinator leaves the \<open>with\<close> block, after the loop or with the
    exception that ended it, and the process ends.
\<close>

datatype action = Submit | Dequeue nat | Begin nat | Finish nat | Merge nat | Leave

fun step :: "env \<Rightarrow> int \<Rightarrow> bool \<Rightarrow> bool \<Rightarrow> action \<Rightarrow> config \<Rightarrow> config option" where
  "step e max_workers keep_going commit Submit c =
     (case (coord c, unsubmitted c) of
        (Looping, package # rest) \<Rightarrow>
          Some (c\<lparr>unsubmitted := rest, queue := queue c @ [package]\<rparr>)
      | _ \<Rightarrow> None)"
| "step e max_workers keep_going commit (Dequeue i) c =
     (case (coord c, workers c i, queue c) of
        (Done f, _, _) \<Rightarrow> None
      | (_, Idle, package # rest) \<Rightarrow>
          if i < nat max_workers
          then Some (c\<lparr>queue := rest, workers := (workers c)(i := Holding package)\<rparr>)
          else None
      | _ \<Rightarrow> None)"
| "step e max_workers keep_going commit (Begin i) c =
     (case (coord c, workers c i) of
        (Done f, _) \<Rightarrow> None
      | (_, Holding package) \<Rightarrow>
          if run_update_script_blocked package commit (temp_dirs c) (thread_name i) (world c)
          then None
          else (case run_update_script_start package commit (temp_dirs c) (thread_name i) (world c) of
                  (Inl x, w) \<Rightarrow>
                    Some (c\<lparr>world := w, workers := (workers c)(i := Idle),
                            finished := finished c @ [(package, Inl x)]\<rparr>)
                | (Inr (package', cwd), w) \<Rightarrow>
                    Some (c\<lparr>world := w, workers := (workers c)(i := Running package' cwd)\<rparr>))
      | _ \<Rightarrow> None)"
| "step e max_workers keep_going commit (Finish i) c =
     (case (coord c, workers c i) of
        (Done f, _) \<Rightarrow> None
      | (_, Running package cwd) \<Rightarrow>
          (case run_update_script_finish e package cwd (world c) of
             (r, w) \<Rightarrow>
               Some (c\<lparr>world := w, workers := (workers c)(i := Idle),
                       finished := finished c @ [(package, r)]\<rparr>))
      | _ \<Rightarrow> None)"
| "step e max_workers keep_going commit (Merge k) c =
     (if coord c = Looping \<and> unsubmitted c = [] \<and> k < length (finished c) then
        (case finished c ! k of
           (package, future) \<Rightarrow>
             (case merge_changes e package future commit keep_going (temp_dirs c) (world c) of
                (r, w) \<Rightarrow>
                  Some (c\<lparr>world := w,
                          finished := take k (finished c) @ drop (Suc k) (finished c),
                          coord := (case r of Inl x \<Rightarrow> Leaving (Inl x) | Inr u \<Rightarrow> Looping)\<rparr>)))
      else None)"
| "step e max_workers keep_going commit Leave c =
     (if shut_down (nat max_workers) c then
        (case coord c of
           Looping \<Rightarrow>
             if unsubmitted c = [] \<and> finished c = [] then Some (leave e (Inr ()) c) else None
         | Leaving r \<Rightarrow> Some (leave e r c)
         | Done f \<Rightarrow> None)
      else None)"

fun exec :: "env \<Rightarrow> int \<Rightarrow> bool \<Rightarrow> bool \<Rightarrow> action list \<Rightarrow> config \<Rightarrow> config option" where
  "exec e max_workers keep_going commit [] c = Some c"
| "exec e max_workers keep_going commit (a # as) c =
     (case step e max_workers keep_going commit a c of
        None \<Rightarrow> None
      | Some c' \<Rightarrow> exec e max_workers keep_going commit as c')"

text \<open>The script run with the given arguments under a schedule.\<close>

definition run :: "env \<Rightarrow> int \<Rightarrow> bool \<Rightarrow> bool \<Rightarrow> 'a \<Rightarrow> action list \<Rightarrow> config option" where
  "run e max_workers keep_going commit packages schedule =
     exec e max_workers keep_going commit schedule
       (main_start e max_workers keep_going commit packages)"

section \<open>Notions used in the properties\<close>

text \<open>The three git commands the loop of \<open>commit_changes\<close> runs for one change, all succeeding.\<close>

definition commit_events :: "string \<Rightarrow> string \<Rightarrow> change \<Rightarrow> event list" where
  "commit_events worktree branch c =
     [Git (''add'' # files c) (Some worktree) 0,
      Git [''commit'', ''-m'', commit_message c] (Some worktree) 0,
      Git [''cherry-pick'', branch] None 0]"

text \<open>
  The commits created in a worktree: the messages of the successful commands
  \<open>git commit -m msg\<close> that ran there, oldest first.
\<close>

fun committed :: "string \<Rightarrow> event \<Rightarrow> string list" where
  "committed worktree (Git args cwd rc) =
     (if rc = 0 \<and> cwd = Some worktree \<and> length args = 3
         \<and> args ! 0 = ''commit'' \<and> args ! 1 = ''-m''
      then [args ! 2] else [])"
| "committed worktree ev = []"

definition commits_in :: "string \<Rightarrow> event list \<Rightarrow> string list" where
  "commits_in worktree evs = concat (map (committed worktree) evs)"

text \<open>
  The commits reapplied onto the checked-out branch. \<open>git cherry-pick branch\<close> reapplies
  the commit the branch points to, which is the last commit made in its worktree; the
  state is that tip and the messages of the commits reapplied so far.
\<close>

fun reapply :: "string \<Rightarrow> string \<Rightarrow> string option \<times> string list \<Rightarrow> event \<Rightarrow> string option \<times> string list" where
  "reapply worktree branch (tip, picked) (Git args cwd rc) =
     (if rc = 0 \<and> cwd = Some worktree \<and> length args = 3
         \<and> args ! 0 = ''commit'' \<and> args ! 1 = ''-m''
      then (Some (args ! 2), picked)
      else if rc = 0 \<and> cwd = None \<and> args = [''cherry-pick'', branch]
      then (tip, picked @ (case tip of None \<Rightarrow> [] | Some m \<Rightarrow> [m]))
      else (tip, picked))"
| "reapply worktree branch s ev = s"

definition reapplied :: "string \<Rightarrow> string \<Rightarrow> event list \<Rightarrow> string list" where
  "reapplied worktree branch evs = snd (foldl (reapply worktree branch) (None, []) evs)"

text \<open>
  Integration only after all commits: no \<open>git commit\<close> follows the first
  \<open>git cherry-pick\<close>.
\<close>

fun is_commit :: "event \<Rightarrow> bool" where
  "is_commit (Git args cwd rc) = (take 1 args = [''commit''])"
| "is_commit ev = False"

fun is_cherry_pick :: "event \<Rightarrow> bool" where
  "is_cherry_pick (Git args cwd rc) = (take 1 args = [''cherry-pick''])"
| "is_cherry_pick ev = False"

definition commits_before_integration :: "event list \<Rightarrow> bool" where
  "commits_before_integration evs =
     (filter is_commit (dropWhile (\<lambda>ev. \<not> is_cherry_pick ev) evs) = [])"

text \<open>Kinds of effects.\<close>


fun is_git :: "event \<Rightarrow> bool" where
  "is_git (Git args cwd rc) = True"
| "is_git ev = False"

fun is_print :: "event \<Rightarrow> bool" where
  "is_print (Eprint s) = True"
| "is_print (Prompt s) = True"
| "is_print ev = False"

fun is_log :: "event \<Rightarrow> bool" where
  "is_log (WriteFile file content) = True"
| "is_log ev = False"

fun is_lock :: "event \<Rightarrow> bool" where
  "is_lock (Acquire l) = True"
| "is_lock (Release l) = True"
| "is_lock ev = False"

fun is_process :: "event \<Rightarrow> bool" where
  "is_process (Spawn argv cwd) = True"
| "is_process (Exit argv cwd rc) = True"
| "is_process ev = False"

fun is_tempdir :: "event \<Rightarrow> bool" where
  "is_tempdir (Mkdtemp d) = True"
| "is_tempdir (Rmtree d) = True"
| "is_tempdir ev = False"

text \<open>The world \<open>w'\<close> continues \<open>w\<close> with effects of kind \<open>P\<close> only.\<close>

definition adds :: "(event \<Rightarrow> bool) \<Rightarrow> world \<Rightarrow> world \<Rightarrow> bool" where
  "adds P w w' = (\<exists>evs. trace w' = trace w @ evs \<and> list_all P evs)"








fun holds :: "wstate \<Rightarrow> package option" where
  "holds Idle = None"
| "holds (Holding q) = Some q"
| "holds (Running q cwd) = Some q"




section \<open>Example inputs\<close>

text \<open>
  A decoder that knows two outputs, an environment in which the outcome of a command
  depends on its command line only, and packages named by one string.
\<close>

definition ex_json :: "string \<Rightarrow> change list option" where
  "ex_json s =
     (if s = ''[]'' then Some []
      else if s = ''[x, y]'' then
        Some [\<lparr>attrPath = ''x'', oldVersion = ''1.0'', newVersion = ''1.1'', files = [''x.nix'']\<rparr>,
              \<lparr>attrPath = ''y'', oldVersion = ''2.0'', newVersion = ''2.1'', files = [''y.nix'']\<rparr>]
      else None)"

definition ex_env :: "(string list \<Rightarrow> int \<times> string) \<Rightarrow> package list \<Rightarrow> string option \<Rightarrow> env" where
  "ex_env outcome packages line =
     \<lparr>proc = (\<lambda>history argv cwd. outcome argv),
      json_loads = ex_json,
      decode_utf8 = Some,
      sys_argv = [''update.py'', ''packages.json''],
      load_packages = (\<lambda>file. if file = ''packages.json'' then Some packages else None),
      stdin_line = line,
      mkdtemp = (\<lambda>i. ''/tmp/tmp'' @ str i)\<rparr>"

definition ex_package :: "string \<Rightarrow> string list \<Rightarrow> package" where
  "ex_package n features =
     \<lparr>name = n, pname = n, updateScript = [''./update-'' @ n], supportedFeatures = features,
      thread = None\<rparr>"

definition ex_world :: world where
  "ex_world = \<lparr>trace = [], held = {''UpdateScriptThread_0''}\<rparr>"

definition ex_temp_dirs :: temp_dirs where
  "ex_temp_dirs = [(''UpdateScriptThread_0'', ''/tmp/tmp0/nixpkgs'', ''update-tmp0'')]"


definition ex_commit_package :: package where
  "ex_commit_package = (ex_package ''a'' [''commit''])\<lparr>thread := Some ''UpdateScriptThread_0''\<rparr>"

definition ex_execution :: completed_process where
  "ex_execution = \<lparr>returncode = 0, stdout = ''[x, y]''\<rparr>"

definition ex_env_ok :: env where
  "ex_env_ok = ex_env (\<lambda>argv. (0, ''[x, y]'')) [ex_package ''a'' [''commit'']] (Some [])"

text \<open>
  Environments in which the update script of package \<open>a\<close> fails, prints something
  that is not JSON, and in which \<open>git worktree remove\<close> fails.
\<close>

definition ex_env_fail :: env where
  "ex_env_fail =
     ex_env (\<lambda>argv. if argv = [''./update-a''] then (1, ''boom'') else (0, []))
       [ex_package ''a'' [''commit'']] (Some [])"





text \<open>
  An environment in which the update script of package \<open>b\<close> fails, and the end of
  the run of that package with keep-going enabled and commits disabled.
\<close>

definition ex_env_plain :: env where
  "ex_env_plain =
     ex_env (\<lambda>argv. if argv = [''./update-b''] then (1, ''boom'') else (0, []))
       [ex_package ''b'' [''commit'']] (Some [])"

definition ex_plain_config :: config where
  "ex_plain_config =
     the (run ex_env_plain 1 True False () [Submit, Dequeue 0, Begin 0, Finish 0, Merge 0, Leave])"







section \<open>Basic facts\<close>

lemma git_cases:
  "git e args cwd w = (r, w') \<Longrightarrow>
     \<exists>rc. w' = emit (Git args cwd rc) w \<and>
       ((r = Inr () \<and> rc = 0) \<or> (r = Inl (CalledProcessError rc (''git'' # args) None) \<and> rc \<noteq> 0))"
  by (auto simp: git_def Let_def split: if_splits)

lemma trace_emit [simp]: "trace (emit ev w) = trace w @ [ev]"
  by (simp add: emit_def)

lemma held_emit [simp]: "held (emit ev w) = held w"
  by (simp add: emit_def)

subsection \<open>The kinds of effects each function adds\<close>

lemma adds_refl [simp]: "adds P w w"
  by (simp add: adds_def)

lemma adds_trans: "adds P w w1 \<Longrightarrow> adds P w1 w2 \<Longrightarrow> adds P w w2"
  by (auto simp: adds_def)

lemma adds_emit: "adds P w w1 \<Longrightarrow> P ev \<Longrightarrow> adds P w (emit ev w1)"
  by (auto simp: adds_def)

lemma adds_weaken: "adds P w w' \<Longrightarrow> (\<And>ev. P ev \<Longrightarrow> Q ev) \<Longrightarrow> adds Q w w'"
  by (auto simp: adds_def list_all_iff)

lemma adds_filter:
  "adds P w w' \<Longrightarrow> (\<And>ev. P ev \<Longrightarrow> \<not> Q ev) \<Longrightarrow> filter Q (trace w') = filter Q (trace w)"
  by (auto simp: adds_def list_all_iff filter_empty_conv)

lemma adds_subset: "adds P w w' \<Longrightarrow> set (trace w) \<subseteq> set (trace w')"
  by (auto simp: adds_def)

lemma adds_all: "adds P w w' \<Longrightarrow> list_all P (trace w) \<Longrightarrow> list_all P (trace w')"
  by (auto simp: adds_def)

lemma adds_eprint: "adds P w w1 \<Longrightarrow> P (Eprint s) \<Longrightarrow> adds P w (eprint s w1)"
  by (simp add: eprint_def adds_emit)

lemma adds_acquire: "adds P w w1 \<Longrightarrow> P (Acquire l) \<Longrightarrow> adds P w (acquire l w1)"
  by (auto simp: acquire_def adds_def emit_def)

lemma adds_release: "adds P w w1 \<Longrightarrow> P (Release l) \<Longrightarrow> adds P w (release l w1)"
  by (auto simp: release_def adds_def emit_def)

lemma git_adds: "git e args cwd w = (r, w') \<Longrightarrow> adds is_git w w'"
  by (auto simp: git_def Let_def adds_emit split: if_splits)

lemma commit_each_adds: "commit_each e worktree branch cs w = (r, w') \<Longrightarrow> adds is_git w w'"
proof (induction cs arbitrary: w)
  case Nil
  then show ?case by simp
next
  case (Cons c cs)
  then show ?case
    by (auto split: prod.splits sum.splits dest!: git_adds intro: adds_trans)
qed

lemma commit_changes_adds: "commit_changes e worktree branch execution w = (r, w') \<Longrightarrow> adds is_git w w'"
  by (auto simp: commit_changes_def split: option.splits dest: commit_each_adds)

lemma merge_try_adds:
  "merge_try e package future commit tds w = (rl, w') \<Longrightarrow>
     adds (\<lambda>ev. is_print ev \<or> (commit \<and> is_git ev)) w w'"
  by (auto simp: merge_try_def split: sum.splits option.splits prod.splits if_splits
           dest!: commit_changes_adds intro!: adds_eprint elim: adds_weaken)

lemma merge_except_adds:
  "merge_except e package keep_going out w = (r, w') \<Longrightarrow> adds (\<lambda>ev. is_print ev \<or> is_log ev) w w'"
  by (auto simp: merge_except_def Let_def split: option.splits if_splits
           intro!: adds_eprint adds_emit)

lemma merge_handle_adds:
  "merge_handle e package keep_going r w = (r', w') \<Longrightarrow> adds (\<lambda>ev. is_print ev \<or> is_log ev) w w'"
  by (cases "(e, package, keep_going, r, w)" rule: merge_handle.cases)
     (auto dest: merge_except_adds)

lemma merge_finally_adds:
  "merge_finally package commit lock r w = (r', w') \<Longrightarrow> adds (\<lambda>ev. commit \<and> is_lock ev) w w'"
  by (auto simp: merge_finally_def split: option.splits if_splits intro!: adds_release)

lemma merge_changes_adds:
  assumes "merge_changes e package future commit keep_going tds w = (r, w')"
  shows "adds (\<lambda>ev. is_print ev \<or> is_log ev \<or> (commit \<and> (is_git ev \<or> is_lock ev))) w w'"
proof -
  from assms obtain r1 lock w1 r2 w2 where
    a: "merge_try e package future commit tds w = ((r1, lock), w1)" and
    b: "merge_handle e package keep_going r1 w1 = (r2, w2)" and
    c: "merge_finally package commit lock r2 w2 = (r, w')"
    by (auto simp: merge_changes_def split: prod.splits)
  have "adds (\<lambda>ev. is_print ev \<or> is_log ev \<or> (commit \<and> (is_git ev \<or> is_lock ev))) w w1"
    using merge_try_adds [OF a] by (rule adds_weaken) auto
  moreover have "adds (\<lambda>ev. is_print ev \<or> is_log ev \<or> (commit \<and> (is_git ev \<or> is_lock ev))) w1 w2"
    using merge_handle_adds [OF b] by (rule adds_weaken) auto
  moreover have "adds (\<lambda>ev. is_print ev \<or> is_log ev \<or> (commit \<and> (is_git ev \<or> is_lock ev))) w2 w'"
    using merge_finally_adds [OF c] by (rule adds_weaken) auto
  ultimately show ?thesis by (blast intro: adds_trans)
qed

lemma run_update_script_start_adds:
  "run_update_script_start package commit tds tn w = (r, w') \<Longrightarrow>
     adds (\<lambda>ev. is_print ev \<or> is_process ev \<or> (commit \<and> is_lock ev)) w w'"
  by (auto simp: run_update_script_start_def Let_def split: option.splits if_splits
           intro!: adds_emit adds_eprint adds_acquire)

lemma run_update_script_finish_adds:
  "run_update_script_finish e package cwd w = (r, w') \<Longrightarrow> adds is_process w w'"
  by (auto simp: run_update_script_finish_def Let_def split: if_splits intro!: adds_emit)

lemma make_worktree_exit_adds:
  assumes "make_worktree_exit e c r w = (r', w')"
  shows "adds (\<lambda>ev. is_git ev \<or> is_tempdir ev) w w'"
proof -
  let ?P = "\<lambda>ev. is_git ev \<or> is_tempdir ev"
  obtain wt target_directory branch_name where c: "c = (wt, target_directory, branch_name)"
    by (cases c)
  have g: "adds ?P w0 w1" if "git e args cwd w0 = (r0, w1)" for args cwd w0 r0 w1
    using git_adds [OF that] by (rule adds_weaken) simp
  have t: "adds ?P w0 (emit (Rmtree wt) w1)" if "adds ?P w0 w1" for w0 w1
    using that by (rule adds_emit) simp
  show ?thesis
  proof (cases r)
    case (Inl x)
    with assms c show ?thesis by (auto intro: t)
  next
    case (Inr u)
    obtain r1 w1 where 1: "git e [''worktree'', ''remove'', target_directory] None w = (r1, w1)"
      by (cases "git e [''worktree'', ''remove'', target_directory] None w")
    obtain r2 w2 where 2: "git e [''branch'', ''-D'', branch_name] None w1 = (r2, w2)"
      by (cases "git e [''branch'', ''-D'', branch_name] None w1")
    from g [OF 1] g [OF 2] have "adds ?P w w2" by (rule adds_trans)
    with assms c Inr 1 2 g [OF 1] show ?thesis
      by (cases r1; cases r2) (auto intro: t)
  qed
qed

lemma exit_stack_adds:
  "exit_stack e st r w = (r', w') \<Longrightarrow> adds (\<lambda>ev. is_git ev \<or> is_tempdir ev) w w'"
proof (induction st arbitrary: r w)
  case Nil
  then show ?case by simp
next
  case (Cons c st)
  then show ?case
    by (auto split: prod.splits dest!: make_worktree_exit_adds intro: adds_trans)
qed

lemma main_end_adds: "main_end r w = (r', w') \<Longrightarrow> adds is_print w w'"
  by (cases "(r, w)" rule: main_end.cases) (auto intro!: adds_eprint)

lemma make_worktree_enter_adds:
  assumes "make_worktree_enter e k w = (r, w')"
  shows "adds (\<lambda>ev. is_git ev \<or> is_tempdir ev) w w'"
proof -
  let ?P = "\<lambda>ev. is_git ev \<or> is_tempdir ev"
  let ?wt = "mkdtemp e k"
  let ?w0 = "emit (Mkdtemp ?wt) w"
  obtain r1 w1 where
    1: "git e [''worktree'', ''add'', ''-b'', ''update-'' @ basename ?wt, ?wt @ ''/nixpkgs''] None ?w0
          = (r1, w1)"
    by (cases "git e [''worktree'', ''add'', ''-b'', ''update-'' @ basename ?wt, ?wt @ ''/nixpkgs''] None ?w0")
  have "adds ?P w ?w0" by (rule adds_emit) simp_all
  moreover have "adds ?P ?w0 w1" using git_adds [OF 1] by (rule adds_weaken) simp
  ultimately have a: "adds ?P w w1" by (rule adds_trans)
  then have "adds ?P w (emit (Rmtree ?wt) w1)" by (rule adds_emit) simp
  with a assms 1 show ?thesis
    by (cases r1) (auto simp: make_worktree_enter_def Let_def)
qed

lemma enter_worktrees_adds:
  "enter_worktrees e is st td w = (r, st', w') \<Longrightarrow> adds (\<lambda>ev. is_git ev \<or> is_tempdir ev) w w'"
proof (induction "is" arbitrary: st td w)
  case Nil
  then show ?case by simp
next
  case (Cons i "is")
  then show ?case
    by (auto split: prod.splits sum.splits dest!: make_worktree_enter_adds intro: adds_trans)
qed

subsection \<open>The commands of a successful merge\<close>

lemma commit_each_ok:
  "commit_each e worktree branch cs w = (Inr (), w') \<Longrightarrow>
     trace w' = trace w @ concat (map (commit_events worktree branch) cs) \<and> held w' = held w"
proof (induction cs arbitrary: w)
  case Nil
  then show ?case by simp
next
  case (Cons c cs)
  from Cons.prems obtain w1 w2 w3 where
    g1: "git e (''add'' # files c) (Some worktree) w = (Inr (), w1)" and
    g2: "git e [''commit'', ''-m'', commit_message c] (Some worktree) w1 = (Inr (), w2)" and
    g3: "git e [''cherry-pick'', branch] None w2 = (Inr (), w3)" and
    rest: "commit_each e worktree branch cs w3 = (Inr (), w')"
    by (auto split: prod.splits sum.splits)
  from g1 have t1: "w1 = emit (Git (''add'' # files c) (Some worktree) 0) w"
    by (auto dest: git_cases)
  from g2 have t2: "w2 = emit (Git [''commit'', ''-m'', commit_message c] (Some worktree) 0) w1"
    by (auto dest: git_cases)
  from g3 have t3: "w3 = emit (Git [''cherry-pick'', branch] None 0) w2"
    by (auto dest: git_cases)
  from Cons.IH [OF rest] t1 t2 t3 show ?case
    by (simp add: commit_events_def)
qed

lemma commits_in_append [simp]:
  "commits_in worktree (xs @ ys) = commits_in worktree xs @ commits_in worktree ys"
  by (simp add: commits_in_def)

lemma commits_in_commit_events:
  "commits_in worktree (concat (map (commit_events worktree branch) cs)) = map commit_message cs"
  by (induction cs) (simp_all add: commits_in_def commit_events_def)

lemma foldl_reapply_commit_events:
  "foldl (reapply worktree branch) (tip, picked) (concat (map (commit_events worktree branch) cs)) =
     ((if cs = [] then tip else Some (commit_message (last cs))), picked @ map commit_message cs)"
  by (induction cs arbitrary: tip picked) (simp_all add: commit_events_def)

lemma reapplied_commit_events:
  "reapplied worktree branch (concat (map (commit_events worktree branch) cs)) = map commit_message cs"
  by (simp add: reapplied_def foldl_reapply_commit_events)


lemma commit_each_error:
  "commit_each e worktree branch cs w = (Inl x, w') \<Longrightarrow> \<exists>rc cmd. x = CalledProcessError rc cmd None"
proof (induction cs arbitrary: w)
  case Nil
  then show ?case by simp
next
  case (Cons c cs)
  then show ?case
    by (auto split: prod.splits sum.splits dest: git_cases)
qed

lemma commit_changes_error:
  "commit_changes e worktree branch execution w = (Inl x, w') \<Longrightarrow>
     x = JSONDecodeError \<or> (\<exists>rc cmd. x = CalledProcessError rc cmd None)"
  by (auto simp: commit_changes_def split: option.splits dest: commit_each_error)

lemma merge_except_no_output:
  "fst (merge_except e package keep_going None w) = Inl AttributeError"
  by (simp add: merge_except_def Let_def)

lemma merge_handle_commit_error:
  assumes "commit_changes e worktree branch execution w = (Inl x, w1)"
  shows "fst (merge_handle e package keep_going (Inl x) w1) \<noteq> Inr ()"
  using commit_changes_error [OF assms]
  by (auto simp: merge_except_no_output)

lemma merge_changes_success:
  assumes "merge_changes e package (Inr execution) True keep_going tds w = (Inr (), w')"
    and "''commit'' \<in> set (supportedFeatures package)"
  shows "\<exists>tn worktree branch changes.
           thread package = Some tn
           \<and> map_of tds tn = Some (worktree, branch)
           \<and> json_loads e (stdout execution) = Some changes
           \<and> trace w' = trace w @ concat (map (commit_events worktree branch) changes)
                          @ [Eprint (done_line package), Release tn]"
proof -
  from assms obtain tn where tn: "thread package = Some tn"
    by (auto simp: merge_changes_def merge_try_def merge_finally_def
             split: option.splits prod.splits sum.splits if_splits)
  from assms tn obtain worktree branch where td: "map_of tds tn = Some (worktree, branch)"
    by (auto simp: merge_changes_def merge_try_def merge_finally_def
             split: option.splits prod.splits sum.splits if_splits)
  from assms tn td obtain w1 where
    cc: "commit_changes e worktree branch execution w = (Inr (), w1)" and
    w': "w' = release tn (eprint (done_line package) w1)"
    by (auto simp: merge_changes_def merge_try_def merge_finally_def
             split: option.splits prod.splits sum.splits if_splits
             dest: merge_handle_commit_error [where e = e and package = package and keep_going = keep_going])
  from cc obtain changes where
    js: "json_loads e (stdout execution) = Some changes" and
    ce: "commit_each e worktree branch changes w = (Inr (), w1)"
    by (auto simp: commit_changes_def split: option.splits)
  from commit_each_ok [OF ce]
  have "trace w1 = trace w @ concat (map (commit_events worktree branch) changes)" by simp
  with w' have "trace w' = trace w @ concat (map (commit_events worktree branch) changes)
                          @ [Eprint (done_line package), Release tn]"
    by (simp add: release_def eprint_def)
  with tn td js show ?thesis by blast
qed

subsection \<open>The steps of a run\<close>

lemma step_cases [consumes 1, case_names Submit Dequeue Begin_raise Begin Finish Merge Leave_loop Leave_raise]:
  assumes "step e max_workers keep_going commit a c = Some c'"
  obtains
    (Submit) p rest where "a = Submit" "coord c = Looping" "unsubmitted c = p # rest"
      "c' = c\<lparr>unsubmitted := rest, queue := queue c @ [p]\<rparr>"
  | (Dequeue) i p rest where "a = Dequeue i" "\<forall>f. coord c \<noteq> Done f" "workers c i = Idle"
      "queue c = p # rest" "i < nat max_workers"
      "c' = c\<lparr>queue := rest, workers := (workers c)(i := Holding p)\<rparr>"
  | (Begin_raise) i p x w where "a = Begin i" "\<forall>f. coord c \<noteq> Done f" "workers c i = Holding p"
      "run_update_script_start p commit (temp_dirs c) (thread_name i) (world c) = (Inl x, w)"
      "c' = c\<lparr>world := w, workers := (workers c)(i := Idle),
              finished := finished c @ [(p, Inl x)]\<rparr>"
  | (Begin) i p p' cwd w where "a = Begin i" "\<forall>f. coord c \<noteq> Done f" "workers c i = Holding p"
      "\<not> run_update_script_blocked p commit (temp_dirs c) (thread_name i) (world c)"
      "run_update_script_start p commit (temp_dirs c) (thread_name i) (world c) = (Inr (p', cwd), w)"
      "c' = c\<lparr>world := w, workers := (workers c)(i := Running p' cwd)\<rparr>"
  | (Finish) i p cwd r w where "a = Finish i" "\<forall>f. coord c \<noteq> Done f" "workers c i = Running p cwd"
      "run_update_script_finish e p cwd (world c) = (r, w)"
      "c' = c\<lparr>world := w, workers := (workers c)(i := Idle),
              finished := finished c @ [(p, r)]\<rparr>"
  | (Merge) k p future r w where "a = Merge k" "coord c = Looping" "unsubmitted c = []"
      "k < length (finished c)" "finished c ! k = (p, future)"
      "merge_changes e p future commit keep_going (temp_dirs c) (world c) = (r, w)"
      "c' = c\<lparr>world := w, finished := take k (finished c) @ drop (Suc k) (finished c),
              coord := (case r of Inl x \<Rightarrow> Leaving (Inl x) | Inr u \<Rightarrow> Looping)\<rparr>"
  | (Leave_loop) "a = Leave" "coord c = Looping" "unsubmitted c = []" "finished c = []"
      "shut_down (nat max_workers) c" "c' = leave e (Inr ()) c"
  | (Leave_raise) r where "a = Leave" "coord c = Leaving r" "shut_down (nat max_workers) c"
      "c' = leave e r c"
proof (cases a)
  case Submit
  with assms that(1) show ?thesis
    by (auto split: coord.splits list.splits)
next
  case (Dequeue i)
  with assms that(2) show ?thesis
    by (auto split: coord.splits list.splits wstate.splits if_splits)
next
  case (Begin i)
  with assms that(3,4) show ?thesis
    by (auto split: coord.splits wstate.splits if_splits prod.splits sum.splits)
next
  case (Finish i)
  with assms that(5) show ?thesis
    by (auto split: coord.splits wstate.splits prod.splits)
next
  case (Merge k)
  with assms that(6) show ?thesis
    by (auto split: if_splits prod.splits)
next
  case Leave
  with assms that(7,8) show ?thesis
    by (auto split: if_splits coord.splits)
qed

lemma trace_listing:
  "trace (listing packages w) =
     trace w @ [Eprint [], Eprint ''Going to be running update for following packages:'']
       @ map (\<lambda>p. Eprint ('' - '' @ name p)) packages @ [Eprint []]"
proof -
  have "trace (fold (\<lambda>package. eprint ('' - '' @ name package)) packages w0) =
        trace w0 @ map (\<lambda>p. Eprint ('' - '' @ name p)) packages" for w0
    by (induction packages arbitrary: w0) (simp_all add: eprint_def)
  then show ?thesis by (simp add: listing_def eprint_def)
qed

lemma listing_adds: "adds is_print w (listing packages w)"
  by (auto simp: adds_def trace_listing list_all_iff)

lemma held_listing: "held (listing packages w) = held w"
proof -
  have "held (fold (\<lambda>package. eprint ('' - '' @ name package)) packages w0) = held w0" for w0
    by (induction packages arbitrary: w0) (simp_all add: eprint_def)
  then show ?thesis by (simp add: listing_def eprint_def)
qed

lemma step_Done: "coord c = Done f \<Longrightarrow> step e max_workers keep_going commit a c = None"
  by (cases a) (simp_all split: list.splits wstate.splits)










lemma some_the: "(case x of None \<Rightarrow> False | Some y \<Rightarrow> True) \<Longrightarrow> x = Some (the x)"
  by (cases x) auto

lemma exec_invariant:
  assumes "exec e max_workers keep_going commit schedule c = Some c'" and "I c"
    and "\<And>a c c'. step e max_workers keep_going commit a c = Some c' \<Longrightarrow> I c \<Longrightarrow> I c'"
  shows "I c'"
  using assms(1,2)
proof (induction schedule arbitrary: c)
  case Nil
  then show ?case by simp
next
  case (Cons a schedule)
  from Cons.prems(1) obtain c1 where
    s: "step e max_workers keep_going commit a c = Some c1" and
    x: "exec e max_workers keep_going commit schedule c1 = Some c'"
    by (auto split: option.splits)
  from assms(3) [OF s Cons.prems(2)] Cons.IH [OF x] show ?case by simp
qed

lemma leave_adds:
  "adds (\<lambda>ev. is_print ev \<or> (stack c \<noteq> [] \<and> (is_git ev \<or> is_tempdir ev)))
     (world c) (world (leave e r c))"
proof -
  obtain r1 w1 where x: "exit_stack e (stack c) r (world c) = (r1, w1)"
    by (cases "exit_stack e (stack c) r (world c)")
  obtain r2 w2 where m: "main_end r1 w1 = (r2, w2)"
    by (cases "main_end r1 w1")
  have "adds (\<lambda>ev. is_print ev \<or> (stack c \<noteq> [] \<and> (is_git ev \<or> is_tempdir ev))) (world c) w1"
  proof (cases "stack c = []")
    case True
    with x show ?thesis by simp
  next
    case False
    with exit_stack_adds [OF x] show ?thesis by (auto elim: adds_weaken)
  qed
  moreover have "adds (\<lambda>ev. is_print ev \<or> (stack c \<noteq> [] \<and> (is_git ev \<or> is_tempdir ev))) w1 w2"
    using main_end_adds [OF m] by (rule adds_weaken) simp
  ultimately show ?thesis
    using x m by (auto simp: leave_def intro: adds_trans)
qed

lemma step_adds:
  assumes "step e max_workers keep_going commit a c = Some c'"
  shows "adds (\<lambda>ev. is_print ev \<or> is_process ev \<or> ((\<exists>k. a = Merge k) \<and> is_log ev)
                 \<or> (commit \<and> (is_git ev \<or> is_lock ev))
                 \<or> (stack c \<noteq> [] \<and> (is_git ev \<or> is_tempdir ev)))
           (world c) (world c')"
  using assms
proof (cases rule: step_cases)
  case (Begin_raise i p x w)
  from run_update_script_start_adds [OF Begin_raise(4)] Begin_raise(5)
  show ?thesis by (auto elim: adds_weaken)
next
  case (Begin i p p' cwd w)
  from run_update_script_start_adds [OF Begin(5)] Begin(6)
  show ?thesis by (auto elim: adds_weaken)
next
  case (Finish i p cwd r w)
  from run_update_script_finish_adds [OF Finish(4)] Finish(5)
  show ?thesis by (auto elim: adds_weaken)
next
  case (Merge k p future r w)
  from merge_changes_adds [OF Merge(6)] Merge(1,7)
  show ?thesis by (auto elim: adds_weaken)
next
  case Leave_loop
  with leave_adds [of c e "Inr ()"] show ?thesis by (auto elim: adds_weaken)
next
  case (Leave_raise r)
  with leave_adds [of c e r] show ?thesis by (auto elim: adds_weaken)
qed simp_all

lemma step_stack:
  "step e max_workers keep_going commit a c = Some c' \<Longrightarrow>
     temp_dirs c' = temp_dirs c \<and> (stack c' = stack c \<or> stack c' = [])"
  by (cases rule: step_cases) (auto simp: leave_def split: prod.splits)

lemma main_start_no_commit:
  "temp_dirs (main_start e max_workers keep_going False pk) = []
   \<and> stack (main_start e max_workers keep_going False pk) = []
   \<and> list_all is_print (trace (world (main_start e max_workers keep_going False pk)))"
proof -
  have "list_all is_print (trace (listing loaded \<lparr>trace = [], held = {}\<rparr>))" for loaded
    using adds_all [OF listing_adds [of "\<lparr>trace = [], held = {}\<rparr>" loaded]] by simp
  then show ?thesis
    by (auto simp: main_start_def initial_def Let_def eprint_def split: option.splits)
qed

lemma trace_eprint [simp]: "trace (eprint s w) = trace w @ [Eprint s]"
  by (simp add: eprint_def)











subsection \<open>Facts for runs with keep-going enabled\<close>
































lemma holds_update:
  "holds (((ws :: nat \<Rightarrow> wstate)(j := s)) i) = (if i = j then holds s else holds (ws i))"
  by simp






section \<open>Commits and change records\<close>

text \<open>
  C7. When a package that supports commits is merged successfully in a run with commits
  enabled, the commits created in its worktree are one per change record parsed from
  the output of its update script, in order, and the message of each is the attribute
  path, a colon and a space, the old version, the arrow between two spaces, and the new
  version.
\<close>

theorem commits_match_change_records:
  assumes "merge_changes e package (Inr execution) True keep_going tds w = (Inr (), w')"
    and "''commit'' \<in> set (supportedFeatures package)"
  shows "\<exists>tn worktree branch changes new.
           thread package = Some tn
           \<and> map_of tds tn = Some (worktree, branch)
           \<and> json_loads e (stdout execution) = Some changes
           \<and> commits_in worktree (trace w') = commits_in worktree (trace w) @ new
           \<and> length new = length changes
           \<and> new = map (\<lambda>c. attrPath c @ '': '' @ oldVersion c @ '' '' @ [CHR 0xE2, CHR 0x86, CHR 0x92]
                               @ '' '' @ newVersion c) changes"
proof -
  from merge_changes_success [OF assms] obtain tn worktree branch changes where
    f: "thread package = Some tn" "map_of tds tn = Some (worktree, branch)"
       "json_loads e (stdout execution) = Some changes" and
    t: "trace w' = trace w @ concat (map (commit_events worktree branch) changes)
                          @ [Eprint (done_line package), Release tn]"
    by blast
  have "commits_in worktree [Eprint (done_line package), Release tn] = []"
    by (simp add: commits_in_def)
  with t have "commits_in worktree (trace w') =
      commits_in worktree (trace w) @ map commit_message changes"
    by (simp add: commits_in_commit_events)
  with f show ?thesis
    by (simp add: commit_message_def [abs_def] arrow_def)
qed

theorem commits_match_change_records_witness:
  "fst (merge_changes ex_env_ok ex_commit_package (Inr ex_execution) True False ex_temp_dirs ex_world) = Inr ()
   \<and> ''commit'' \<in> set (supportedFeatures ex_commit_package)
   \<and> (\<exists>tn worktree branch changes new.
           thread ex_commit_package = Some tn
           \<and> map_of ex_temp_dirs tn = Some (worktree, branch)
           \<and> json_loads ex_env_ok (stdout ex_execution) = Some changes
           \<and> commits_in worktree (trace (snd (merge_changes ex_env_ok ex_commit_package
                  (Inr ex_execution) True False ex_temp_dirs ex_world)))
               = commits_in worktree (trace ex_world) @ new
           \<and> length new = length changes
           \<and> new = map (\<lambda>c. attrPath c @ '': '' @ oldVersion c @ '' '' @ [CHR 0xE2, CHR 0x86, CHR 0x92]
                               @ '' '' @ newVersion c) changes)"
proof -
  let ?m = "merge_changes ex_env_ok ex_commit_package (Inr ex_execution) True False ex_temp_dirs ex_world"
  have h1: "fst ?m = Inr ()" by code_simp
  then have h1': "?m = (Inr (), snd ?m)" by (metis prod.collapse)
  have h2: "''commit'' \<in> set (supportedFeatures ex_commit_package)" by code_simp
  from commits_match_change_records [OF h1' h2] h1 h2 show ?thesis by blast
qed

text \<open>
  C3, as the code has it. When such a package is merged successfully, the commands run
  are, for each change record in order, \<open>git add\<close> and \<open>git commit\<close> in the
  worktree followed at once by \<open>git cherry-pick\<close> of the worktree's branch; so each
  commit is reapplied before the next change is staged, and the commits reapplied are
  the commits created in the worktree, in their order.
\<close>

theorem reapplied_commit_by_commit:
  assumes "merge_changes e package (Inr execution) True keep_going tds w = (Inr (), w')"
    and "''commit'' \<in> set (supportedFeatures package)"
  shows "\<exists>tn worktree branch changes new.
           thread package = Some tn
           \<and> map_of tds tn = Some (worktree, branch)
           \<and> json_loads e (stdout execution) = Some changes
           \<and> new = concat (map (commit_events worktree branch) changes)
           \<and> trace w' = trace w @ new @ [Eprint (done_line package), Release tn]
           \<and> reapplied worktree branch new = commits_in worktree new"
  using merge_changes_success [OF assms]
  by (simp add: reapplied_commit_events commits_in_commit_events)

theorem reapplied_commit_by_commit_witness:
  "fst (merge_changes ex_env_ok ex_commit_package (Inr ex_execution) True False ex_temp_dirs ex_world) = Inr ()
   \<and> ''commit'' \<in> set (supportedFeatures ex_commit_package)
   \<and> (\<exists>tn worktree branch changes new.
           thread ex_commit_package = Some tn
           \<and> map_of ex_temp_dirs tn = Some (worktree, branch)
           \<and> json_loads ex_env_ok (stdout ex_execution) = Some changes
           \<and> new = concat (map (commit_events worktree branch) changes)
           \<and> trace (snd (merge_changes ex_env_ok ex_commit_package (Inr ex_execution) True False
                  ex_temp_dirs ex_world))
               = trace ex_world @ new @ [Eprint (done_line ex_commit_package), Release tn]
           \<and> reapplied worktree branch new = commits_in worktree new)"
proof -
  let ?m = "merge_changes ex_env_ok ex_commit_package (Inr ex_execution) True False ex_temp_dirs ex_world"
  have h1: "fst ?m = Inr ()" by code_simp
  then have h1': "?m = (Inr (), snd ?m)" by (metis prod.collapse)
  have h2: "''commit'' \<in> set (supportedFeatures ex_commit_package)" by code_simp
  from reapplied_commit_by_commit [OF h1' h2] h1 h2 show ?thesis by blast
qed

text \<open>
  C3, as stated, fails: with two change records the first \<open>git cherry-pick\<close> runs before
  the second \<open>git commit\<close>.
\<close>

theorem integration_after_all_commits_counterexample:
  "merge_changes ex_env_ok ex_commit_package (Inr ex_execution) True False ex_temp_dirs ex_world =
     (Inr (),
      \<lparr>trace =
         [Git [''add'', ''x.nix''] (Some ''/tmp/tmp0/nixpkgs'') 0,
          Git [''commit'', ''-m'', ''x: 1.0 '' @ arrow @ '' 1.1''] (Some ''/tmp/tmp0/nixpkgs'') 0,
          Git [''cherry-pick'', ''update-tmp0''] None 0,
          Git [''add'', ''y.nix''] (Some ''/tmp/tmp0/nixpkgs'') 0,
          Git [''commit'', ''-m'', ''y: 2.0 '' @ arrow @ '' 2.1''] (Some ''/tmp/tmp0/nixpkgs'') 0,
          Git [''cherry-pick'', ''update-tmp0''] None 0,
          Eprint '' - a: DONE.'',
          Release ''UpdateScriptThread_0''],
       held = {}\<rparr>)
   \<and> \<not> commits_before_integration
         (trace (snd (merge_changes ex_env_ok ex_commit_package (Inr ex_execution) True False
                        ex_temp_dirs ex_world)))"
  by (simp add: merge_changes_def merge_try_def merge_finally_def commit_changes_def ex_env_def ex_json_def
      ex_package_def ex_temp_dirs_def ex_world_def git_def eprint_def emit_def release_def
      ex_env_ok_def ex_commit_package_def ex_execution_def commit_message_def done_line_def
      commits_before_integration_def)


section \<open>The lock of a worktree\<close>

text \<open>
  When the update of a package that supports commits succeeded, \<open>merge_changes\<close>
  releases the lock exactly once, whatever \<open>commit_changes\<close> does. When the update
  failed, it raises \<open>UnboundLocalError\<close> and the lock stays held.
\<close>

lemma held_commit_each:
  "commit_each e worktree branch cs w = (r, w') \<Longrightarrow> held w' = held w"
proof (induction cs arbitrary: w)
  case Nil
  then show ?case by simp
next
  case (Cons c cs)
  then show ?case
    by (auto split: prod.splits sum.splits dest!: git_cases)
qed

lemma held_merge_handle:
  "merge_handle e package keep_going r w = (r', w') \<Longrightarrow> held w' = held w"
  by (cases "(e, package, keep_going, r, w)" rule: merge_handle.cases)
     (auto simp: merge_except_def Let_def eprint_def split: option.splits if_splits)

lemma merge_changes_releases:
  assumes "''commit'' \<in> set (supportedFeatures package)" and "thread package = Some tn"
    and "map_of tds tn = Some (worktree, branch)" and "tn \<in> held w"
    and "merge_changes e package (Inr execution) True keep_going tds w = (r, w')"
  shows "held w' = held w - {tn}
         \<and> filter is_lock (trace w') = filter is_lock (trace w) @ [Release tn]"
proof -
  obtain r0 w0 where cc: "commit_changes e worktree branch execution w = (r0, w0)"
    by (cases "commit_changes e worktree branch execution w")
  define r1 :: "exn + unit" where "r1 = (case r0 of Inl x \<Rightarrow> Inl x | Inr u \<Rightarrow> Inr ())"
  define w1 where "w1 = (case r0 of Inl x \<Rightarrow> w0 | Inr u \<Rightarrow> eprint (done_line package) w0)"
  have t: "merge_try e package (Inr execution) True tds w = ((r1, Some tn), w1)"
    using assms(1-3) cc by (cases r0) (simp_all add: merge_try_def r1_def w1_def)
  obtain r2 w2 where h: "merge_handle e package keep_going r1 w1 = (r2, w2)"
    by (cases "merge_handle e package keep_going r1 w1")
  have h0: "held w0 = held w"
    using cc by (auto simp: commit_changes_def split: option.splits dest: held_commit_each)
  have h1: "held w1 = held w"
    using h0 by (cases r0) (simp_all add: w1_def eprint_def)
  have h2: "held w2 = held w" using held_merge_handle [OF h] h1 by simp
  have l1: "filter is_lock (trace w1) = filter is_lock (trace w)"
  proof (rule adds_filter [OF merge_try_adds [OF t]])
    fix ev
    assume "is_print ev \<or> True \<and> is_git ev"
    then show "\<not> is_lock ev" by (cases ev) auto
  qed
  have l2: "filter is_lock (trace w2) = filter is_lock (trace w1)"
  proof (rule adds_filter [OF merge_handle_adds [OF h]])
    fix ev
    assume "is_print ev \<or> is_log ev"
    then show "\<not> is_lock ev" by (cases ev) auto
  qed
  from assms(5) t h have "merge_finally package True (Some tn) r2 w2 = (r, w')"
    by (simp add: merge_changes_def)
  with assms(1,4) h2 have "w' = release tn w2"
    by (simp add: merge_finally_def)
  with h2 l1 l2 show ?thesis
    by (simp add: release_def emit_def)
qed

lemma merge_changes_unbound_lock:
  assumes "''commit'' \<in> set (supportedFeatures package)"
    and "merge_changes e package (Inl x) True keep_going tds w = (r, w')"
  shows "r = Inl (UnboundLocalError ''lock'') \<and> held w' = held w
         \<and> filter is_lock (trace w') = filter is_lock (trace w)"
proof -
  obtain r2 w2 where h: "merge_handle e package keep_going (Inl x) w = (r2, w2)"
    by (cases "merge_handle e package keep_going (Inl x) w")
  from assms h have r: "r = Inl (UnboundLocalError ''lock'')" and w: "w' = w2"
    by (simp_all add: merge_changes_def merge_try_def merge_finally_def)
  have "filter is_lock (trace w2) = filter is_lock (trace w)"
  proof (rule adds_filter [OF merge_handle_adds [OF h]])
    fix ev
    assume "is_print ev \<or> is_log ev"
    then show "\<not> is_lock ev" by (cases ev) auto
  qed
  moreover have "held w2 = held w"
    using h
    by (cases "(e, package, keep_going, Inl x :: exn + unit, w)" rule: merge_handle.cases)
       (auto simp: merge_except_def Let_def eprint_def split: option.splits if_splits)
  ultimately show ?thesis using r w by simp
qed

text \<open>
  C1 on a failing update. One package that supports commits, one worker, commits
  enabled, keep-going enabled; the update script exits with status 1. The worker
  acquires the lock of its worktree. In \<open>merge_changes\<close>, \<open>future.result()\<close>
  raises before \<open>lock\<close> is bound, the handler logs the failure, and the \<open>finally\<close>
  block raises \<open>UnboundLocalError\<close>: the lock is never released and the run ends with
  that exception. The effects after the worktree was created are listed.
\<close>

theorem guard_not_released_on_execution_failure:
  "map_option (\<lambda>c. (coord c, drop 9 (trace (world c)), held (world c)))
     (run ex_env_fail 1 True True () [Submit, Dequeue 0, Begin 0, Finish 0, Merge 0, Leave])
   = Some (Done (Crashed (UnboundLocalError ''lock'')),
           [Acquire ''UpdateScriptThread_0'',
            Eprint '' - a: UPDATING ...'',
            Spawn [''./update-a''] (Some ''/tmp/tmp0/nixpkgs''),
            Exit [''./update-a''] (Some ''/tmp/tmp0/nixpkgs'') 1,
            Eprint '' - a: ERROR'',
            Eprint [],
            Eprint ''--- SHOWING ERROR LOG FOR a ----------------------'',
            Eprint [],
            Eprint ''boom'',
            WriteFile ''a.log'' ''boom'',
            Eprint [],
            Eprint ''--- SHOWING ERROR LOG FOR a ----------------------'',
            Rmtree ''/tmp/tmp0''],
           {''UpdateScriptThread_0''})"
  by code_simp

section \<open>Output that cannot be parsed\<close>




section \<open>The start of main\<close>



text \<open>
  C10. With a readable package file, a line other than the empty one at the prompt ends
  the process with code 130: after the list of packages and the prompt the only effect
  is the notice \<open>Aborting!\<close>, no worktree exists, nothing is queued and no thread can
  take a step. The empty line does not end the process there: the run goes on to
  \<open>Running update for:\<close>.
\<close>

theorem only_empty_line_proceeds:
  assumes "1 < length (sys_argv e)" and "load_packages e (sys_argv e ! 1) = Some loaded"
    and "stdin_line e = Some line"
  shows "(line \<noteq> [] \<longrightarrow>
            coord (main_start e max_workers keep_going commit pk) = Done (Exited 130)
            \<and> trace (world (main_start e max_workers keep_going commit pk))
                = trace (listing loaded \<lparr>trace = [], held = {}\<rparr>)
                  @ [Prompt ''Press Enter key to continue...'', Eprint ''Aborting!'']
            \<and> temp_dirs (main_start e max_workers keep_going commit pk) = []
            \<and> stack (main_start e max_workers keep_going commit pk) = []
            \<and> queue (main_start e max_workers keep_going commit pk) = []
            \<and> (\<forall>a. step e max_workers keep_going commit a
                      (main_start e max_workers keep_going commit pk) = None))
       \<and> (line = [] \<longrightarrow>
            (\<forall>f. coord (main_start e max_workers keep_going commit pk) \<noteq> Done f)
            \<and> Eprint ''Running update for:''
                \<in> set (trace (world (main_start e max_workers keep_going commit pk))))"
proof (cases "line = []")
  case True
  have "Eprint ''Running update for:'' \<in> set (trace w')"
    if "enter_worktrees e is [] [] (eprint ''Running update for:'' w) = (r, st, w')" for "is" w r st w'
    using adds_subset [OF enter_worktrees_adds [OF that]] by (auto simp: eprint_def)
  with True assms show ?thesis
    by (auto simp: main_start_def initial_def Let_def split: prod.splits sum.splits)
next
  case False
  with assms have d: "coord (main_start e max_workers keep_going commit pk) = Done (Exited 130)"
    by (simp add: main_start_def initial_def Let_def)
  from False assms show ?thesis
    using step_Done [OF d]
    by (simp add: main_start_def initial_def Let_def eprint_def)
qed

theorem only_empty_line_proceeds_witness:
  "1 < length (sys_argv (ex_env (\<lambda>argv. (0, [])) [ex_package ''a'' []] (Some ''n'')))
   \<and> load_packages (ex_env (\<lambda>argv. (0, [])) [ex_package ''a'' []] (Some ''n'')) ''packages.json''
       = Some [ex_package ''a'' []]
   \<and> coord (main_start (ex_env (\<lambda>argv. (0, [])) [ex_package ''a'' []] (Some ''n'')) 4 False True ())
       = Done (Exited 130)
   \<and> trace (world (main_start (ex_env (\<lambda>argv. (0, [])) [ex_package ''a'' []] (Some ''n'')) 4 False True ()))
       = [Eprint [], Eprint ''Going to be running update for following packages:'',
          Eprint '' - a'', Eprint [], Prompt ''Press Enter key to continue...'', Eprint ''Aborting!'']
   \<and> step (ex_env (\<lambda>argv. (0, [])) [ex_package ''a'' []] (Some ''n'')) 4 False True Submit
        (main_start (ex_env (\<lambda>argv. (0, [])) [ex_package ''a'' []] (Some ''n'')) 4 False True ()) = None
   \<and> coord (main_start ex_env_ok 4 False True ()) = Looping"
proof -
  let ?e = "ex_env (\<lambda>argv. (0, [])) [ex_package ''a'' []] (Some ''n'')"
  have a1: "1 < length (sys_argv ?e)" by (simp add: ex_env_def)
  have a2: "load_packages ?e (sys_argv ?e ! 1) = Some [ex_package ''a'' []]" by (simp add: ex_env_def)
  have a3: "stdin_line ?e = Some ''n''" by (simp add: ex_env_def)
  have b1: "1 < length (sys_argv ex_env_ok)" by (simp add: ex_env_def ex_env_ok_def)
  have b2: "load_packages ex_env_ok (sys_argv ex_env_ok ! 1) = Some [ex_package ''a'' [''commit'']]"
    by (simp add: ex_env_def ex_env_ok_def)
  have b3: "stdin_line ex_env_ok = Some []" by (simp add: ex_env_def ex_env_ok_def)
  have l: "trace (listing [ex_package ''a'' []] \<lparr>trace = [], held = {}\<rparr>) =
      [Eprint [], Eprint ''Going to be running update for following packages:'',
          Eprint '' - a'', Eprint []]"
    by (simp add: trace_listing ex_package_def)
  have c: "coord (main_start ex_env_ok 4 False True ()) = Looping" by code_simp
  from only_empty_line_proceeds [OF a1 a2 a3, of 4 False True "()"]
       only_empty_line_proceeds [OF b1 b2 b3, of 4 False True "()"] a1 a2 l c
  show ?thesis by (simp add: ex_env_def)
qed

section \<open>Removing the worktrees\<close>




section \<open>Runs without commits\<close>

text \<open>
  C8. In a run with commits disabled, whatever the packages, the number of workers and
  the schedule, the table of worktrees and the \<open>ExitStack\<close> stay empty, and no git
  command is run and no temporary directory is created: no worktree is ever added and
  no commit is ever made.
\<close>

theorem no_worktree_without_commit:
  assumes "run e max_workers keep_going False pk schedule = Some c"
  shows "temp_dirs c = [] \<and> stack c = []
         \<and> (\<forall>ev \<in> set (trace (world c)). \<not> is_git ev \<and> \<not> is_tempdir ev)"
proof -
  let ?P = "\<lambda>ev. is_print ev \<or> is_process ev \<or> is_log ev"
  let ?I = "\<lambda>c. temp_dirs c = [] \<and> stack c = [] \<and> list_all ?P (trace (world c))"
  have "?I c"
  proof (rule exec_invariant [OF assms [unfolded run_def]])
    show "?I (main_start e max_workers keep_going False pk)"
      using main_start_no_commit [of e max_workers keep_going pk]
      by (auto simp: list_all_iff)
  next
    fix a c1 c2
    assume s: "step e max_workers keep_going False a c1 = Some c2" and i: "?I c1"
    from step_adds [OF s] i have "adds ?P (world c1) (world c2)"
      by (auto elim: adds_weaken)
    with i step_stack [OF s] show "?I c2"
      by (auto dest: adds_all)
  qed
  moreover have "\<not> is_git ev \<and> \<not> is_tempdir ev" if "?P ev" for ev
    using that by (cases ev) auto
  ultimately show ?thesis by (auto simp: list_all_iff)
qed

theorem no_worktree_without_commit_witness:
  "run ex_env_plain 1 True False () [Submit, Dequeue 0, Begin 0, Finish 0, Merge 0, Leave]
     = Some ex_plain_config
   \<and> temp_dirs ex_plain_config = [] \<and> stack ex_plain_config = []
   \<and> filter is_git (trace (world ex_plain_config)) = []
   \<and> filter is_tempdir (trace (world ex_plain_config)) = []
   \<and> coord ex_plain_config = Done (Exited 0)"
proof -
  have "case run ex_env_plain 1 True False () [Submit, Dequeue 0, Begin 0, Finish 0, Merge 0, Leave] of
          None \<Rightarrow> False | Some c \<Rightarrow> True"
    by code_simp
  then have h: "run ex_env_plain 1 True False () [Submit, Dequeue 0, Begin 0, Finish 0, Merge 0, Leave]
                  = Some ex_plain_config"
    unfolding ex_plain_config_def by (rule some_the)
  have d: "coord ex_plain_config = Done (Exited 0)" by code_simp
  from no_worktree_without_commit [OF h] h d show ?thesis by (simp add: filter_empty_conv)
qed

section \<open>Stopping at the first failure\<close>






section \<open>Keep-going\<close>




end
